theory Spec2Isabelle
  imports Main
begin

section \<open>Unicode sanitization (llm/sanitize.py)\<close>

text \<open>
  A Python \<open>str\<close> is a sequence of Unicode code points; \<open>ord\<close> reads one as an
  integer. A string is therefore modelled as the list of its code points, each a
  natural number, and \<open>ord\<close> is the identity.
\<close>

type_synonym pystr = "nat list"

definition pystr :: "string \<Rightarrow> pystr" where
  "pystr s = map of_char s"

subsection \<open>The code point sets\<close>

text \<open>\<^verbatim>\<open>_TAG_RANGE = range(0xE0000, 0xE007F + 1)\<close>\<close>

definition TAG_RANGE :: "nat list" where
  "TAG_RANGE = [0xE0000 ..< 0xE007F + 1]"

text \<open>\<^verbatim>\<open>_ALWAYS_REMOVE = frozenset(_TAG_RANGE)\<close>\<close>

definition ALWAYS_REMOVE :: "nat set" where
  "ALWAYS_REMOVE = set TAG_RANGE"

text \<open>\<^verbatim>\<open>_ZERO_WIDTH = frozenset({0x200B, 0x200C, 0x200D, 0xFEFF})\<close>\<close>

definition ZERO_WIDTH :: "nat set" where
  "ZERO_WIDTH = {0x200B, 0x200C, 0x200D, 0xFEFF}"

text \<open>\<^verbatim>\<open>_BIDI = frozenset({0x202A, 0x202B, 0x202C, 0x202D, 0x202E, 0x2066, 0x2067, 0x2068, 0x2069})\<close>\<close>

definition BIDI :: "nat set" where
  "BIDI = {0x202A, 0x202B, 0x202C, 0x202D, 0x202E, 0x2066, 0x2067, 0x2068, 0x2069}"

text \<open>\<^verbatim>\<open>_STRICT_REMOVE = _ALWAYS_REMOVE | _ZERO_WIDTH | _BIDI\<close>\<close>

definition STRICT_REMOVE :: "nat set" where
  "STRICT_REMOVE = ALWAYS_REMOVE \<union> ZERO_WIDTH \<union> BIDI"

subsection \<open>Python values\<close>

text \<open>
  The functions accept any object and dispatch on its run-time type. The values are
  \<open>None\<close>, strings, dictionaries (the items in insertion order), lists, tuples, and
  values of every other type. The latter are opaque and compared by Python equality:
  \<open>PAtom\<close> stands for the hashable ones (numbers, booleans, bytes, frozen sets),
  \<open>PObj\<close> for the unhashable ones (sets, byte arrays and the like).

  \<open>isinstance\<close> also accepts the instances of a subclass. \<open>PListSub\<close> is an instance
  of a subclass of \<open>list\<close> that defines \<open>__hash__\<close>, as in
  \<^verbatim>\<open>class HL(list): __hash__ = lambda self: 0\<close>; unlike a plain list it can be the key
  of a dictionary. A hashable subclass of \<open>dict\<close> takes the same path through the code
  and is not modelled separately.
\<close>

datatype 'a pyval =
    PNone
  | PStr pystr
  | PDict "('a pyval \<times> 'a pyval) list"
  | PList "'a pyval list"
  | PTuple "'a pyval list"
  | PAtom 'a
  | PObj 'a
  | PListSub "'a pyval list"

subsection \<open>The sanitizing filter\<close>

text \<open>
  \<^verbatim>\<open>
  def sanitize_unicode(text, strict=False):
      if text is None:
          return None
      if not isinstance(text, str):
          return text
      if not text:
          return text
      if _STRICT_MODE_ENV:
          strict = True
      chars_to_remove = _STRICT_REMOVE if strict else _ALWAYS_REMOVE
      return "".join(c for c in text if ord(c) not in chars_to_remove)
  \<close>
  In \<open>sanitize_unicode env text strict\<close> the first argument is the module global
  \<open>_STRICT_MODE_ENV\<close>, computed once when the module is loaded; \<open>strict\<close> is the
  caller's argument (\<open>False\<close> when omitted). No operation of the body can raise, so
  the result is a value.
\<close>

fun sanitize_unicode :: "bool \<Rightarrow> 'a pyval \<Rightarrow> bool \<Rightarrow> 'a pyval" where
  "sanitize_unicode env PNone strict = PNone"
| "sanitize_unicode env (PStr text) strict =
     (if text = [] then PStr text
      else
        let strict = (if env then True else strict);
            chars_to_remove = (if strict then STRICT_REMOVE else ALWAYS_REMOVE)
        in PStr (filter (\<lambda>c. c \<notin> chars_to_remove) text))"
| "sanitize_unicode env v strict = v"

subsection \<open>The environment override\<close>

text \<open>
  \<^verbatim>\<open>_STRICT_MODE_ENV = os.environ.get("LLM_SANITIZE_STRICT", "").lower() in ("1", "true", "yes")\<close>

  The process environment is a map from names to values. \<open>str.lower\<close> belongs to the
  Python runtime: on an ASCII code point it lowers the letters A to Z and changes
  nothing else; what a code point from 128 upwards becomes (one to three code points,
  for the capital sigma depending on its position in the string) is read from the
  Unicode tables, which the parameter \<open>ul\<close> stands for: \<open>ul s i\<close> is the lower case
  of the code point at index \<open>i\<close> of \<open>s\<close>.
\<close>

definition ascii_lower :: "nat \<Rightarrow> nat" where
  "ascii_lower c = (if 0x41 \<le> c \<and> c \<le> 0x5A then c + 32 else c)"

definition lower :: "(pystr \<Rightarrow> nat \<Rightarrow> pystr) \<Rightarrow> pystr \<Rightarrow> pystr" where
  "lower ul s =
     concat (map (\<lambda>i. if s ! i < 128 then [ascii_lower (s ! i)] else ul s i) [0 ..< length s])"

definition environ_get :: "(pystr \<rightharpoonup> pystr) \<Rightarrow> pystr \<Rightarrow> pystr \<Rightarrow> pystr" where
  "environ_get environ name dflt = (case environ name of None \<Rightarrow> dflt | Some v \<Rightarrow> v)"

definition STRICT_MODE_ENV :: "(pystr \<Rightarrow> nat \<Rightarrow> pystr) \<Rightarrow> (pystr \<rightharpoonup> pystr) \<Rightarrow> bool" where
  "STRICT_MODE_ENV ul environ =
     (lower ul (environ_get environ (pystr ''LLM_SANITIZE_STRICT'') [])
        \<in> set [pystr ''1'', pystr ''true'', pystr ''yes''])"

subsection \<open>The structure walker\<close>

text \<open>
  Storing a key in a dictionary hashes it first, which raises \<open>TypeError\<close> for a
  dictionary, a list, an unhashable object and a tuple holding one of these. A key that
  compares equal to one already present keeps the first key and its place and replaces
  the value; a new key goes to the end.
\<close>

datatype error = TypeError

fun hashable :: "'a pyval \<Rightarrow> bool" where
  "hashable PNone = True"
| "hashable (PStr s) = True"
| "hashable (PDict d) = False"
| "hashable (PList xs) = False"
| "hashable (PTuple xs) = list_all hashable xs"
| "hashable (PAtom a) = True"
| "hashable (PObj a) = False"
| "hashable (PListSub xs) = True"

fun dict_set :: "('k \<times> 'v) list \<Rightarrow> 'k \<Rightarrow> 'v \<Rightarrow> ('k \<times> 'v) list" where
  "dict_set [] k v = [(k, v)]"
| "dict_set ((k', v') # d) k v =
     (if k' = k then (k', v) # d else (k', v') # dict_set d k v)"

definition dict_setitem ::
  "('a pyval \<times> 'a pyval) list \<Rightarrow> 'a pyval \<Rightarrow> 'a pyval \<Rightarrow> error + ('a pyval \<times> 'a pyval) list" where
  "dict_setitem d k v = (if hashable k then Inr (dict_set d k v) else Inl TypeError)"

text \<open>
  \<^verbatim>\<open>
  def sanitize_dict(obj):
      if isinstance(obj, str):
          return sanitize_unicode(obj)
      elif isinstance(obj, dict):
          return {sanitize_dict(k): sanitize_dict(v) for k, v in obj.items()}
      elif isinstance(obj, list):
          return [sanitize_dict(item) for item in obj]
      elif isinstance(obj, tuple):
          return tuple(sanitize_dict(item) for item in obj)
      return obj
  \<close>
  In \<open>sanitize_dict env obj\<close> the first argument is again the module global
  \<open>_STRICT_MODE_ENV\<close>. The dictionary comprehension is the loop \<open>sanitize_items\<close>:
  it walks the items in order, sanitizes the key, then the value, and stores the pair
  in the dictionary built so far, which is where a \<open>TypeError\<close> can arise. The list
  comprehension and the generator handed to \<open>tuple\<close> are the loop \<open>sanitize_elems\<close>.
  The comprehensions build plain containers: an instance of a subclass of \<open>list\<close>
  comes back as a plain list.
\<close>

function (sequential) sanitize_dict :: "bool \<Rightarrow> 'a pyval \<Rightarrow> error + 'a pyval"
  and sanitize_items ::
    "bool \<Rightarrow> ('a pyval \<times> 'a pyval) list \<Rightarrow> ('a pyval \<times> 'a pyval) list
       \<Rightarrow> error + ('a pyval \<times> 'a pyval) list"
  and sanitize_elems :: "bool \<Rightarrow> 'a pyval list \<Rightarrow> error + 'a pyval list"
where
  "sanitize_dict env (PStr s) = Inr (sanitize_unicode env (PStr s) False)"
| "sanitize_dict env (PDict items) =
     (case sanitize_items env items [] of Inl e \<Rightarrow> Inl e | Inr d \<Rightarrow> Inr (PDict d))"
| "sanitize_dict env (PList xs) =
     (case sanitize_elems env xs of Inl e \<Rightarrow> Inl e | Inr ys \<Rightarrow> Inr (PList ys))"
| "sanitize_dict env (PListSub xs) =
     (case sanitize_elems env xs of Inl e \<Rightarrow> Inl e | Inr ys \<Rightarrow> Inr (PList ys))"
| "sanitize_dict env (PTuple xs) =
     (case sanitize_elems env xs of Inl e \<Rightarrow> Inl e | Inr ys \<Rightarrow> Inr (PTuple ys))"
| "sanitize_dict env PNone = Inr PNone"
| "sanitize_dict env (PAtom a) = Inr (PAtom a)"
| "sanitize_dict env (PObj a) = Inr (PObj a)"
| "sanitize_items env [] d = Inr d"
| "sanitize_items env ((k, v) # items) d =
     (case sanitize_dict env k of
        Inl e \<Rightarrow> Inl e
      | Inr k' \<Rightarrow>
          (case sanitize_dict env v of
             Inl e \<Rightarrow> Inl e
           | Inr v' \<Rightarrow>
               (case dict_setitem d k' v' of
                  Inl e \<Rightarrow> Inl e
                | Inr d' \<Rightarrow> sanitize_items env items d')))"
| "sanitize_elems env [] = Inr []"
| "sanitize_elems env (x # xs) =
     (case sanitize_dict env x of
        Inl e \<Rightarrow> Inl e
      | Inr y \<Rightarrow>
          (case sanitize_elems env xs of
             Inl e \<Rightarrow> Inl e
           | Inr ys \<Rightarrow> Inr (y # ys)))"
  by pat_completeness auto
termination
  by (relation "measure (\<lambda>x. case x of
         Inl (env, v) \<Rightarrow> size v
       | Inr (Inl (env, items, d)) \<Rightarrow> size_list (size_prod size size) items
       | Inr (Inr (env, xs)) \<Rightarrow> size_list size xs)") auto

text \<open>
  The values Python can build: the keys of a dictionary are hashable and pairwise
  different.
\<close>

fun buildable :: "'a pyval \<Rightarrow> bool" where
  "buildable (PDict items) =
     (distinct (map fst items)
      \<and> list_all (\<lambda>(k, v). hashable k \<and> buildable k \<and> buildable v) items)"
| "buildable (PList xs) = list_all buildable xs"
| "buildable (PTuple xs) = list_all buildable xs"
| "buildable (PListSub xs) = list_all buildable xs"
| "buildable v = True"

text \<open>
  A key is plain when neither it nor, inside a tuple, one of its components is an
  instance of a hashable subclass of a container. The valid values are the values Python
  can build in which every key of every dictionary is plain; the values of Python's
  own types are all among them.
\<close>

fun plain :: "'a pyval \<Rightarrow> bool" where
  "plain (PListSub xs) = False"
| "plain (PTuple xs) = list_all plain xs"
| "plain v = True"

fun valid :: "'a pyval \<Rightarrow> bool" where
  "valid (PDict items) =
     (distinct (map fst items)
      \<and> list_all (\<lambda>(k, v). hashable k \<and> plain k \<and> valid k \<and> valid v) items)"
| "valid (PList xs) = list_all valid xs"
| "valid (PTuple xs) = list_all valid xs"
| "valid (PListSub xs) = list_all valid xs"
| "valid v = True"

text \<open>
  The dictionary left by storing the pairs \<open>ps\<close>, in order, into the dictionary \<open>d\<close>:
  what the loop of the comprehension has built once every key and value is sanitized.
\<close>

definition dict_build :: "('k \<times> 'v) list \<Rightarrow> ('k \<times> 'v) list \<Rightarrow> ('k \<times> 'v) list" where
  "dict_build d ps = foldl (\<lambda>d (k, v). dict_set d k v) d ps"

subsection \<open>The removal sets as the specification words them\<close>

text \<open>
  \<open>AlwaysRemove\<close>: the Tag block, U+E0000 through U+E007F inclusive.
  \<open>StrictRemoveSet\<close>: \<open>AlwaysRemove\<close> plus U+200B, U+200C, U+200D, U+FEFF,
  U+202A..U+202E and U+2066..U+2069.
\<close>

definition AlwaysRemove_spec :: "nat \<Rightarrow> bool" where
  "AlwaysRemove_spec c = (0xE0000 \<le> c \<and> c \<le> 0xE007F)"

definition ConditionallyRemove_spec :: "nat \<Rightarrow> bool" where
  "ConditionallyRemove_spec c =
     (c = 0x200B \<or> c = 0x200C \<or> c = 0x200D \<or> c = 0xFEFF
      \<or> (0x202A \<le> c \<and> c \<le> 0x202E) \<or> (0x2066 \<le> c \<and> c \<le> 0x2069))"

definition active_removal_spec :: "bool \<Rightarrow> nat \<Rightarrow> bool" where
  "active_removal_spec m c =
     (if m then AlwaysRemove_spec c \<or> ConditionallyRemove_spec c else AlwaysRemove_spec c)"

text \<open>
  The environment flag as the specification words it: the variable is set and its value
  is one of \<open>1\<close>, \<open>true\<close>, \<open>yes\<close>, the case of the letters A to Z ignored.
\<close>

definition truthy_spec :: "pystr option \<Rightarrow> bool" where
  "truthy_spec v =
     (case v of
        None \<Rightarrow> False
      | Some s \<Rightarrow> map ascii_lower s \<in> {pystr ''1'', pystr ''true'', pystr ''yes''})"

text \<open>
  What the Unicode tables guarantee about \<open>ul\<close>, as far as the three words are
  concerned: the lower case of a code point from 128 upwards is never made of the
  code points of \<open>1\<close>, \<open>t\<close>, \<open>r\<close>, \<open>u\<close>, \<open>e\<close>, \<open>y\<close>, \<open>s\<close> alone (the only
  ASCII code points such a lower case can hold are \<open>k\<close>, from the Kelvin sign, and
  \<open>i\<close>, from the dotted capital I).
\<close>

definition non_ascii_lower_ok :: "(pystr \<Rightarrow> nat \<Rightarrow> pystr) \<Rightarrow> bool" where
  "non_ascii_lower_ok ul =
     (\<forall>s i. i < length s \<and> 128 \<le> s ! i \<longrightarrow> \<not> set (ul s i) \<subseteq> set (pystr ''1trueys''))"

section \<open>Properties of the filter\<close>

lemma ALWAYS_REMOVE_iff: "c \<in> ALWAYS_REMOVE \<longleftrightarrow> 0xE0000 \<le> c \<and> c \<le> 0xE007F"
  unfolding ALWAYS_REMOVE_def TAG_RANGE_def set_upt atLeastLessThan_iff by arith

lemma STRICT_REMOVE_iff:
  "c \<in> STRICT_REMOVE \<longleftrightarrow>
     (0xE0000 \<le> c \<and> c \<le> 0xE007F)
     \<or> c \<in> {0x200B, 0x200C, 0x200D, 0xFEFF}
     \<or> c \<in> {0x202A, 0x202B, 0x202C, 0x202D, 0x202E, 0x2066, 0x2067, 0x2068, 0x2069}"
  unfolding STRICT_REMOVE_def Un_iff ALWAYS_REMOVE_iff ZERO_WIDTH_def BIDI_def by blast

lemma ALWAYS_REMOVE_spec: "c \<in> ALWAYS_REMOVE \<longleftrightarrow> AlwaysRemove_spec c"
  by (simp add: ALWAYS_REMOVE_iff AlwaysRemove_spec_def)

lemma STRICT_REMOVE_spec:
  "c \<in> STRICT_REMOVE \<longleftrightarrow> AlwaysRemove_spec c \<or> ConditionallyRemove_spec c"
  unfolding STRICT_REMOVE_iff AlwaysRemove_spec_def ConditionallyRemove_spec_def
  by (simp only: insert_iff empty_iff) arith

lemma sanitize_unicode_str:
  "sanitize_unicode env (PStr t) strict =
     PStr (filter (\<lambda>c. c \<notin> (if env \<or> strict then STRICT_REMOVE else ALWAYS_REMOVE)) t)"
  by (cases "t = []") (simp_all add: Let_def)

lemma active_removal_spec_eq:
  "active_removal_spec m c \<longleftrightarrow> c \<in> (if m then STRICT_REMOVE else ALWAYS_REMOVE)"
  by (simp add: active_removal_spec_def ALWAYS_REMOVE_spec STRICT_REMOVE_spec)

text \<open>
  C1. On a string the filter returns exactly the code points of the input that are not
  in the active removal set, in their order and multiplicity: the Tag block when the
  effective strict flag (the environment flag or the caller's argument) is false, the
  Tag block with the zero-width and bidirectional controls when it is true.
\<close>

theorem sanitize_unicode_removes_exactly:
  "sanitize_unicode env (PStr t) m =
     PStr (filter (\<lambda>c. \<not> active_removal_spec (env \<or> m) c) t)"
  unfolding sanitize_unicode_str active_removal_spec_eq ..

text \<open>
  C3. In both modes the result holds neither U+E0000 nor U+E007F, and the occurrences
  of their neighbours U+DFFFF and U+E0080 are those of the input, in the same order.
\<close>

theorem tag_range_boundaries_exact:
  "\<exists>r. sanitize_unicode env (PStr t) m = PStr r
     \<and> 0xE0000 \<notin> set r \<and> 0xE007F \<notin> set r
     \<and> filter (\<lambda>c. c = 0xDFFFF \<or> c = 0xE0080) r = filter (\<lambda>c. c = 0xDFFFF \<or> c = 0xE0080) t"
proof -
  let ?S = "if env \<or> m then STRICT_REMOVE else ALWAYS_REMOVE"
  have lo: "0xE0000 \<in> ?S" and hi: "0xE007F \<in> ?S"
    by (simp_all add: STRICT_REMOVE_iff ALWAYS_REMOVE_iff)
  have out: "c = 0xDFFFF \<or> c = 0xE0080 \<Longrightarrow> c \<notin> ?S" for c
    by (auto simp: STRICT_REMOVE_iff ALWAYS_REMOVE_iff)
  have "filter (\<lambda>c. c = 0xDFFFF \<or> c = 0xE0080) (filter (\<lambda>c. c \<notin> ?S) t)
          = filter (\<lambda>c. c = 0xDFFFF \<or> c = 0xE0080) t"
    unfolding filter_filter by (rule filter_cong) (use out in auto)
  with lo hi show ?thesis
    unfolding sanitize_unicode_str by auto
qed

text \<open>
  C5. For a fixed mode and a fixed environment flag, filtering a filtered string
  changes nothing.
\<close>

theorem sanitize_unicode_idempotent:
  "sanitize_unicode env (sanitize_unicode env (PStr t) m) m = sanitize_unicode env (PStr t) m"
  by (simp add: sanitize_unicode_str)

text \<open>
  C9. The filter distributes over string concatenation.
\<close>

theorem sanitize_unicode_concat:
  "\<exists>a b. sanitize_unicode env (PStr s) m = PStr a \<and> sanitize_unicode env (PStr t) m = PStr b
     \<and> sanitize_unicode env (PStr (s @ t)) m = PStr (a @ b)"
  by (simp add: sanitize_unicode_str)

subsection \<open>The environment flag\<close>

lemma STRICT_MODE_ENV_unset:
  "environ (pystr ''LLM_SANITIZE_STRICT'') = None \<Longrightarrow> \<not> STRICT_MODE_ENV ul environ"
  by (simp add: STRICT_MODE_ENV_def environ_get_def lower_def pystr_def)

lemma words_code_points:
  "set (pystr ''1'') \<subseteq> set (pystr ''1trueys'')"
  "set (pystr ''true'') \<subseteq> set (pystr ''1trueys'')"
  "set (pystr ''yes'') \<subseteq> set (pystr ''1trueys'')"
  "\<forall>c \<in> set (pystr ''1trueys''). c < 128"
  by (simp_all add: pystr_def)

lemma concat_map_single: "concat (map (\<lambda>i. [f i]) xs) = map f xs"
  by (induction xs) simp_all

lemma lower_ascii:
  assumes "\<forall>c \<in> set s. c < 128"
  shows "lower ul s = map ascii_lower s"
proof -
  have "map (\<lambda>i. if s ! i < 128 then [ascii_lower (s ! i)] else ul s i) [0 ..< length s]
          = map (\<lambda>i. [ascii_lower (s ! i)]) [0 ..< length s]"
    using assms by (intro map_cong) auto
  then have "lower ul s = map (\<lambda>i. ascii_lower (s ! i)) [0 ..< length s]"
    by (simp only: lower_def concat_map_single)
  also have "\<dots> = map ascii_lower (map ((!) s) [0 ..< length s])"
    by (simp only: map_map comp_def)
  also have "\<dots> = map ascii_lower s"
    by (simp only: map_nth)
  finally show ?thesis .
qed

lemma ascii_lower_ascii: "ascii_lower c < 128 \<Longrightarrow> c < 128"
  by (simp add: ascii_lower_def split: if_splits)

lemma lower_in_words_ascii:
  assumes ok: "non_ascii_lower_ok ul" and sub: "set (lower ul s) \<subseteq> set (pystr ''1trueys'')"
  shows "\<forall>c \<in> set s. c < 128"
proof (rule ccontr)
  assume "\<not> (\<forall>c \<in> set s. c < 128)"
  then obtain i where i: "i < length s" "128 \<le> s ! i"
    by (auto simp: in_set_conv_nth not_less)
  then have "set (ul s i) \<subseteq> set (lower ul s)"
    by (fastforce simp: lower_def)
  with sub ok i show False
    unfolding non_ascii_lower_ok_def by blast
qed

lemma STRICT_MODE_ENV_truthy:
  assumes ok: "non_ascii_lower_ok ul"
  shows "STRICT_MODE_ENV ul environ = truthy_spec (environ (pystr ''LLM_SANITIZE_STRICT''))"
proof (cases "environ (pystr ''LLM_SANITIZE_STRICT'')")
  case None
  then show ?thesis
    by (simp add: STRICT_MODE_ENV_unset truthy_spec_def)
next
  case (Some s)
  let ?W = "{pystr ''1'', pystr ''true'', pystr ''yes''}"
  have W: "w \<in> ?W \<Longrightarrow> set w \<subseteq> set (pystr ''1trueys'')" for w
    using words_code_points(1-3) by blast
  have "lower ul s \<in> ?W \<longleftrightarrow> map ascii_lower s \<in> ?W"
  proof
    assume l: "lower ul s \<in> ?W"
    from lower_in_words_ascii [OF ok W [OF l]] have "lower ul s = map ascii_lower s"
      by (rule lower_ascii)
    with l show "map ascii_lower s \<in> ?W" by simp
  next
    assume m: "map ascii_lower s \<in> ?W"
    from W [OF m] words_code_points(4) have "\<forall>c \<in> set s. ascii_lower c < 128"
      by auto
    then have "\<forall>c \<in> set s. c < 128"
      by (blast intro: ascii_lower_ascii)
    then have "lower ul s = map ascii_lower s"
      by (rule lower_ascii)
    with m show "lower ul s \<in> ?W" by simp
  qed
  with Some show ?thesis
    by (simp add: STRICT_MODE_ENV_def environ_get_def truthy_spec_def)
qed

text \<open>
  C4. With the environment variable unset, filtering the non-strict result in strict
  mode gives the strict result, and the strict result is the non-strict result without
  its zero-width and bidirectional control code points.
\<close>

theorem strict_refines_non_strict:
  "environ (pystr ''LLM_SANITIZE_STRICT'') = None \<Longrightarrow>
   sanitize_unicode (STRICT_MODE_ENV ul environ)
       (sanitize_unicode (STRICT_MODE_ENV ul environ) (PStr t) False) True
     = sanitize_unicode (STRICT_MODE_ENV ul environ) (PStr t) True
   \<and> (\<exists>r. sanitize_unicode (STRICT_MODE_ENV ul environ) (PStr t) False = PStr r
         \<and> sanitize_unicode (STRICT_MODE_ENV ul environ) (PStr t) True
             = PStr (filter (\<lambda>c. \<not> ConditionallyRemove_spec c) r))"
proof -
  assume "environ (pystr ''LLM_SANITIZE_STRICT'') = None"
  then have env: "STRICT_MODE_ENV ul environ = False"
    by (simp add: STRICT_MODE_ENV_unset)
  have "filter (\<lambda>c. c \<notin> STRICT_REMOVE) (filter (\<lambda>c. c \<notin> ALWAYS_REMOVE) t)
          = filter (\<lambda>c. c \<notin> STRICT_REMOVE) t"
    unfolding filter_filter by (rule filter_cong) (auto simp: STRICT_REMOVE_def)
  moreover have "filter (\<lambda>c. \<not> ConditionallyRemove_spec c) (filter (\<lambda>c. c \<notin> ALWAYS_REMOVE) t)
          = filter (\<lambda>c. c \<notin> STRICT_REMOVE) t"
    unfolding filter_filter by (rule filter_cong) (auto simp: STRICT_REMOVE_spec ALWAYS_REMOVE_spec)
  ultimately show ?thesis
    unfolding env sanitize_unicode_str by simp
qed

theorem strict_refines_non_strict_witness:
  "sanitize_unicode (STRICT_MODE_ENV (\<lambda>s i. [s ! i]) Map.empty)
       (sanitize_unicode (STRICT_MODE_ENV (\<lambda>s i. [s ! i]) Map.empty)
          (PStr [0x48, 0x200D, 0xE0041, 0x69] :: unit pyval) False) True
     = PStr [0x48, 0x69]
   \<and> sanitize_unicode (STRICT_MODE_ENV (\<lambda>s i. [s ! i]) Map.empty)
          (PStr [0x48, 0x200D, 0xE0041, 0x69] :: unit pyval) False = PStr [0x48, 0x200D, 0x69]"
  using strict_refines_non_strict [of Map.empty "\<lambda>s i. [s ! i]" "[0x48, 0x200D, 0xE0041, 0x69]"]
  by (simp add: sanitize_unicode_str STRICT_MODE_ENV_unset STRICT_REMOVE_iff ALWAYS_REMOVE_iff)

text \<open>
  C2. The flag computed when the module is loaded is true exactly when the variable
  is set to \<open>1\<close>, \<open>true\<close> or \<open>yes\<close> in any case. When it is true, a call that asks
  for the non-strict mode returns what the strict mode returns, the string without the
  code points of the strict removal set; when it is not (the variable unset included),
  the caller's argument alone selects the removal set.
\<close>

theorem environment_override_precedence:
  "non_ascii_lower_ok ul \<Longrightarrow>
   STRICT_MODE_ENV ul environ = truthy_spec (environ (pystr ''LLM_SANITIZE_STRICT''))
   \<and> (truthy_spec (environ (pystr ''LLM_SANITIZE_STRICT'')) \<longrightarrow>
        sanitize_unicode (STRICT_MODE_ENV ul environ) (PStr t) False
          = sanitize_unicode (STRICT_MODE_ENV ul environ) (PStr t) True
        \<and> sanitize_unicode (STRICT_MODE_ENV ul environ) (PStr t) False
          = PStr (filter (\<lambda>c. \<not> active_removal_spec True c) t))
   \<and> (\<not> truthy_spec (environ (pystr ''LLM_SANITIZE_STRICT'')) \<longrightarrow>
        sanitize_unicode (STRICT_MODE_ENV ul environ) (PStr t) m
          = PStr (filter (\<lambda>c. \<not> active_removal_spec m c) t))"
  by (simp add: STRICT_MODE_ENV_truthy sanitize_unicode_str active_removal_spec_eq)


theorem environment_override_precedence_witness:
  "non_ascii_lower_ok (\<lambda>s i. [s ! i])
   \<and> truthy_spec (Some (pystr ''YES''))
   \<and> sanitize_unicode
         (STRICT_MODE_ENV (\<lambda>s i. [s ! i]) [pystr ''LLM_SANITIZE_STRICT'' \<mapsto> pystr ''YES''])
         (PStr [0x48, 0x200D, 0x69] :: unit pyval) False
       = PStr [0x48, 0x69]
   \<and> \<not> truthy_spec (Some (pystr ''on''))
   \<and> sanitize_unicode
         (STRICT_MODE_ENV (\<lambda>s i. [s ! i]) [pystr ''LLM_SANITIZE_STRICT'' \<mapsto> pystr ''on''])
         (PStr [0x48, 0x200D, 0x69] :: unit pyval) False
       = PStr [0x48, 0x200D, 0x69]"
proof -
  let ?ul = "\<lambda>(s :: pystr) (i :: nat). [s ! i]"
  let ?K = "pystr ''LLM_SANITIZE_STRICT''"
  let ?t = "[0x48, 0x200D, 0x69] :: pystr"
  have ok: "non_ascii_lower_ok ?ul"
    by (auto simp: non_ascii_lower_ok_def pystr_def)
  have yes: "truthy_spec ([?K \<mapsto> pystr ''YES''] ?K)"
    by (simp add: truthy_spec_def pystr_def ascii_lower_def)
  have no: "\<not> truthy_spec ([?K \<mapsto> pystr ''on''] ?K)"
    by (simp add: truthy_spec_def pystr_def ascii_lower_def)
  let ?yes = "[?K \<mapsto> pystr ''YES'']" and ?on = "[?K \<mapsto> pystr ''on'']"
  have e1: "STRICT_MODE_ENV ?ul ?yes = True"
    using environment_override_precedence [OF ok, of ?yes ?t False] yes by blast
  have e2: "STRICT_MODE_ENV ?ul ?on = False"
    using environment_override_precedence [OF ok, of ?on ?t False] no by blast
  have r1: "sanitize_unicode True (PStr ?t :: unit pyval) False = PStr [0x48, 0x69]"
    by (simp add: sanitize_unicode_str STRICT_REMOVE_iff)
  have r2: "sanitize_unicode False (PStr ?t :: unit pyval) False = PStr ?t"
    by (simp add: sanitize_unicode_str ALWAYS_REMOVE_iff)
  from yes no have "truthy_spec (Some (pystr ''YES''))" "\<not> truthy_spec (Some (pystr ''on''))"
    by simp_all
  with ok show ?thesis
    unfolding e1 e2 r1 r2 by blast
qed

section \<open>Properties of the walker\<close>

subsection \<open>The loops\<close>


lemma dict_build_simps [simp]:
  "dict_build d [] = d"
  "dict_build d ((k, v) # ps) = dict_build (dict_set d k v) ps"
  by (simp_all add: dict_build_def)

lemma sanitize_elems_iff:
  "sanitize_elems env xs = Inr ys \<longleftrightarrow> list_all2 (\<lambda>x y. sanitize_dict env x = Inr y) xs ys"
proof (induction xs arbitrary: ys)
  case Nil
  show ?case by auto
next
  case (Cons x xs)
  have IH: "list_all2 (\<lambda>x y. sanitize_dict env x = Inr y) xs zs \<longleftrightarrow> sanitize_elems env xs = Inr zs"
    for zs by (simp add: Cons.IH)
  show ?case
    by (cases "sanitize_dict env x"; cases "sanitize_elems env xs")
       (auto simp: list_all2_Cons1 IH)
qed

lemma sanitize_items_iff:
  "sanitize_items env items d = Inr out \<longleftrightarrow>
     (\<exists>ps. list_all2 (\<lambda>p q. sanitize_dict env (fst p) = Inr (fst q)
                           \<and> sanitize_dict env (snd p) = Inr (snd q)) items ps
        \<and> list_all (\<lambda>q. hashable (fst q)) ps
        \<and> out = dict_build d ps)"
proof (induction items arbitrary: d)
  case Nil
  show ?case by auto
next
  case (Cons p items)
  obtain k v where p: "p = (k, v)" by (cases p)
  show ?case
    unfolding p
    apply (simp add: Cons.IH dict_setitem_def list_all2_Cons1 split: sum.splits)
    apply (auto)
    done
qed

subsection \<open>Dictionary construction\<close>

lemma dict_set_keys:
  "map fst (dict_set d k v) = (if k \<in> set (map fst d) then map fst d else map fst d @ [k])"
  by (induction d) (auto simp: rev_image_eqI)


lemma set_dict_set: "set (dict_set d k v) \<subseteq> insert (k, v) (set d)"
  by (induction d) (auto split: if_splits)

lemma dict_set_new: "k \<notin> set (map fst d) \<Longrightarrow> dict_set d k v = d @ [(k, v)]"
  by (induction d) auto

lemma dict_build_snoc: "dict_build d (ps @ [(k, v)]) = dict_set (dict_build d ps) k v"
  by (simp add: dict_build_def)

lemma dict_build_keys:
  "distinct (map fst d) \<Longrightarrow>
     map fst (dict_build d ps) = rev (remdups (rev (map fst d @ map fst ps)))"
proof (induction ps rule: rev_induct)
  case Nil
  then show ?case by (simp add: distinct_remdups_id)
next
  case (snoc p ps)
  obtain k v where p: "p = (k, v)" by (cases p)
  have "set (map fst (dict_build d ps)) = set (map fst d) \<union> set (map fst ps)"
    unfolding snoc.IH [OF snoc.prems] by auto
  then show ?case
    unfolding p dict_build_snoc dict_set_keys snoc.IH [OF snoc.prems]
    by simp
qed


lemma set_dict_build: "set (dict_build d ps) \<subseteq> set d \<union> set ps"
proof (induction ps rule: rev_induct)
  case Nil
  show ?case by simp
next
  case (snoc p ps)
  obtain k v where p: "p = (k, v)" by (cases p)
  show ?case
    unfolding p dict_build_snoc using set_dict_set [of "dict_build d ps" k v] snoc.IH
    by auto
qed

lemma dict_build_distinct:
  "distinct (map fst (d @ ps)) \<Longrightarrow> dict_build d ps = d @ ps"
proof (induction ps rule: rev_induct)
  case Nil
  show ?case by simp
next
  case (snoc p ps)
  obtain k v where p: "p = (k, v)" by (cases p)
  from snoc have "dict_build d ps = d @ ps" and "k \<notin> set (map fst (d @ ps))"
    by (auto simp: p)
  then show ?case
    unfolding p dict_build_snoc by (simp add: dict_set_new)
qed

subsection \<open>No error, fixed points\<close>

lemma list_all2_exists: "(\<forall>x \<in> set xs. \<exists>y. R x y) \<Longrightarrow> \<exists>ys. list_all2 R xs ys"
proof (induction xs)
  case Nil
  show ?case by simp
next
  case (Cons x xs)
  then obtain y ys where "R x y" "list_all2 R xs ys" by auto
  then have "list_all2 R (x # xs) (y # ys)" by simp
  then show ?case ..
qed

lemma list_all2_list_all:
  assumes "list_all2 R xs ys" and "list_all P xs"
    and "\<And>x y. x \<in> set xs \<Longrightarrow> R x y \<Longrightarrow> P x \<Longrightarrow> Q y"
  shows "list_all Q ys"
  using assms by (induction rule: list_all2_induct) auto

lemma sanitize_dict_hashable:
  "sanitize_dict env k = Inr k' \<Longrightarrow> hashable k \<and> plain k \<Longrightarrow> hashable k'"
proof (induction k arbitrary: k')
  case (PTuple xs)
  from PTuple.prems obtain ys where ys: "sanitize_elems env xs = Inr ys" "k' = PTuple ys"
    by (auto split: sum.splits)
  then have "list_all2 (\<lambda>x y. sanitize_dict env x = Inr y) xs ys"
    by (simp add: sanitize_elems_iff)
  moreover from PTuple.prems(2) have "list_all (\<lambda>x. hashable x \<and> plain x) xs"
    by (simp add: list_all_iff)
  ultimately have "list_all hashable ys"
    by (rule list_all2_list_all) (rule PTuple.IH)
  with ys show ?case by simp
qed (auto split: if_splits)

lemma sanitize_dict_total: "valid v \<Longrightarrow> \<exists>r. sanitize_dict env v = Inr r"
proof (induction v)
  case (PDict items)
  let ?R = "\<lambda>p q. sanitize_dict env (fst p) = Inr (fst q) \<and> sanitize_dict env (snd p) = Inr (snd q)"
  have "\<exists>q. ?R p q" if "p \<in> set items" for p
  proof -
    obtain k v where p: "p = (k, v)" by (cases p)
    from PDict.prems that have "valid k" "valid v"
      by (auto simp: p list_all_iff)
    with PDict.IH that obtain k' v' where "sanitize_dict env k = Inr k'" "sanitize_dict env v = Inr v'"
      unfolding p by fastforce
    then have "?R p (k', v')" by (simp add: p)
    then show ?thesis ..
  qed
  then have "\<exists>ps. list_all2 ?R items ps"
    by (intro list_all2_exists ballI)
  then obtain ps where ps: "list_all2 ?R items ps" ..
  moreover from PDict.prems have "list_all (\<lambda>p. hashable (fst p) \<and> plain (fst p)) items"
    by (auto simp: list_all_iff)
  with ps have "list_all (\<lambda>q. hashable (fst q)) ps"
    by (rule list_all2_list_all) (blast intro: sanitize_dict_hashable)
  ultimately have "sanitize_items env items [] = Inr (dict_build [] ps)"
    unfolding sanitize_items_iff by blast
  then show ?case by simp
next
  case (PList xs)
  then have "\<forall>x \<in> set xs. \<exists>y. sanitize_dict env x = Inr y"
    by (auto simp: list_all_iff)
  then have "\<exists>ys. list_all2 (\<lambda>x y. sanitize_dict env x = Inr y) xs ys"
    by (rule list_all2_exists)
  then obtain ys where "sanitize_elems env xs = Inr ys"
    unfolding sanitize_elems_iff ..
  then show ?case by simp
next
  case (PTuple xs)
  then have "\<forall>x \<in> set xs. \<exists>y. sanitize_dict env x = Inr y"
    by (auto simp: list_all_iff)
  then have "\<exists>ys. list_all2 (\<lambda>x y. sanitize_dict env x = Inr y) xs ys"
    by (rule list_all2_exists)
  then obtain ys where "sanitize_elems env xs = Inr ys"
    unfolding sanitize_elems_iff ..
  then show ?case by simp
next
  case (PListSub xs)
  then have "\<forall>x \<in> set xs. \<exists>y. sanitize_dict env x = Inr y"
    by (auto simp: list_all_iff)
  then have "\<exists>ys. list_all2 (\<lambda>x y. sanitize_dict env x = Inr y) xs ys"
    by (rule list_all2_exists)
  then obtain ys where "sanitize_elems env xs = Inr ys"
    unfolding sanitize_elems_iff ..
  then show ?case by simp
qed simp_all

lemma sanitize_elems_fixed:
  assumes "sanitize_elems env xs = Inr ys"
    and "\<And>x y. x \<in> set xs \<Longrightarrow> sanitize_dict env x = Inr y \<Longrightarrow> sanitize_dict env y = Inr y"
  shows "sanitize_elems env ys = Inr ys"
proof -
  from assms(1) have "list_all2 (\<lambda>x y. sanitize_dict env x = Inr y) xs ys"
    by (simp add: sanitize_elems_iff)
  moreover have "list_all (\<lambda>_. True) xs"
    by (simp add: list_all_iff)
  ultimately have "list_all (\<lambda>y. sanitize_dict env y = Inr y) ys"
    by (rule list_all2_list_all) (rule assms(2))
  then show ?thesis
    by (simp add: sanitize_elems_iff list_all2_same list_all_iff)
qed

lemma sanitize_dict_fixed: "sanitize_dict env v = Inr r \<Longrightarrow> sanitize_dict env r = Inr r"
proof (induction v arbitrary: r)
  case (PStr s)
  then show ?case
    by (auto simp: sanitize_unicode_str)
next
  case (PDict items)
  let ?R = "\<lambda>p q. sanitize_dict env (fst p) = Inr (fst q) \<and> sanitize_dict env (snd p) = Inr (snd q)"
  from PDict.prems obtain out where out: "sanitize_items env items [] = Inr out" "r = PDict out"
    by (auto split: sum.splits)
  then obtain ps where ps: "list_all2 ?R items ps" "list_all (\<lambda>q. hashable (fst q)) ps"
      "out = dict_build [] ps"
    unfolding sanitize_items_iff by blast
  have step: "?R q q" if "p \<in> set items" "?R p q" for p q
  proof -
    obtain k v where p: "p = (k, v)" by (cases p)
    from that PDict.IH(1) [of p k "fst q"] PDict.IH(2) [of p v "snd q"] show ?thesis
      by (simp add: p)
  qed
  have "list_all (\<lambda>_. True) items"
    by (simp add: list_all_iff)
  with ps(1) have fixed: "list_all (\<lambda>q. ?R q q) ps"
    by (rule list_all2_list_all) (rule step)
  have sub: "set out \<subseteq> set ps"
    unfolding ps(3) using set_dict_build [of "[]" ps] by simp
  have "distinct (map fst out)"
    unfolding ps(3) by (simp add: dict_build_keys)
  then have "out = dict_build [] out"
    by (simp add: dict_build_distinct)
  moreover from sub fixed have "list_all2 ?R out out"
    by (auto simp: list_all2_same list_all_iff)
  moreover from sub ps(2) have "list_all (\<lambda>q. hashable (fst q)) out"
    by (auto simp: list_all_iff)
  ultimately have "\<exists>qs. list_all2 ?R out qs \<and> list_all (\<lambda>q. hashable (fst q)) qs
      \<and> out = dict_build [] qs"
    by (intro exI [of _ out] conjI)
  then have "sanitize_items env out [] = Inr out"
    by (simp only: sanitize_items_iff)
  with out(2) show ?case by simp
next
  case (PList xs)
  from PList.prems obtain ys where ys: "sanitize_elems env xs = Inr ys" "r = PList ys"
    by (auto split: sum.splits)
  from ys(1) have "sanitize_elems env ys = Inr ys"
    by (rule sanitize_elems_fixed) (rule PList.IH)
  with ys(2) show ?case by simp
next
  case (PTuple xs)
  from PTuple.prems obtain ys where ys: "sanitize_elems env xs = Inr ys" "r = PTuple ys"
    by (auto split: sum.splits)
  from ys(1) have "sanitize_elems env ys = Inr ys"
    by (rule sanitize_elems_fixed) (rule PTuple.IH)
  with ys(2) show ?case by simp
next
  case (PListSub xs)
  from PListSub.prems obtain ys where ys: "sanitize_elems env xs = Inr ys" "r = PList ys"
    by (auto split: sum.splits)
  from ys(1) have "sanitize_elems env ys = Inr ys"
    by (rule sanitize_elems_fixed) (rule PListSub.IH)
  with ys(2) show ?case by simp
qed auto



subsection \<open>The claims about the walker\<close>

lemma valid_buildable: "valid v \<Longrightarrow> buildable v"
  by (induction v) (auto simp: list_all_iff)








text \<open>
  C10. The walker is idempotent: on every value Python can build it returns a result,
  and applied to that result it returns it again. A string handed to the walker itself
  is filtered with the mode the environment flag alone decides.
\<close>

theorem sanitize_dict_idempotent:
  "(valid x \<longrightarrow> (\<exists>y. sanitize_dict env x = Inr y \<and> sanitize_dict env y = Inr y))
   \<and> sanitize_dict env (PStr t) = Inr (PStr (filter (\<lambda>c. \<not> active_removal_spec env c) t))"
proof -
  have "\<exists>y. sanitize_dict env x = Inr y \<and> sanitize_dict env y = Inr y" if "valid x"
  proof -
    from that obtain y where "sanitize_dict env x = Inr y"
      using sanitize_dict_total by blast
    moreover from this have "sanitize_dict env y = Inr y"
      by (rule sanitize_dict_fixed)
    ultimately show ?thesis by blast
  qed
  then show ?thesis
    by (simp add: sanitize_unicode_str active_removal_spec_eq)
qed

theorem sanitize_dict_idempotent_witness:
  "valid (PDict [(PStr [0x61, 0xE0041], PList [PStr [0xE0042, 0x200D]]), (PStr [0x61], PNone)]
            :: nat pyval)
   \<and> sanitize_dict False
         (PDict [(PStr [0x61, 0xE0041], PList [PStr [0xE0042, 0x200D]]), (PStr [0x61], PNone)]
            :: nat pyval)
       = Inr (PDict [(PStr [0x61], PNone)])
   \<and> sanitize_dict False (PDict [(PStr [0x61], PNone)] :: nat pyval)
       = Inr (PDict [(PStr [0x61], PNone)])"
  using sanitize_dict_idempotent
    [of "PDict [(PStr [0x61, 0xE0041], PList [PStr [0xE0042, 0x200D]]), (PStr [0x61], PNone)]"
        False "[]"]
  by (simp add: sanitize_unicode_str ALWAYS_REMOVE_iff dict_setitem_def)

section \<open>The scenarios of the test suite\<close>

text \<open>
  The model run on inputs of \<open>tests/test_sanitize.py\<close>, with the values the tests
  expect.
\<close>

lemma test_removes_unicode_tags:
  "sanitize_unicode False (PStr (pystr ''Hello'' @ [0xE0041] @ pystr ''World'')) False
     = PStr (pystr ''HelloWorld'')"
  by (simp add: sanitize_unicode_str pystr_def ALWAYS_REMOVE_iff)

lemma test_strict_removes_bidi_isolates:
  "sanitize_unicode False (PStr (pystr ''A'' @ [0x2066] @ pystr ''B'' @ [0x2067] @ pystr ''C''
       @ [0x2068] @ pystr ''D'' @ [0x2069] @ pystr ''E'')) True
     = PStr (pystr ''ABCDE'')"
  by (simp add: sanitize_unicode_str pystr_def STRICT_REMOVE_iff)

lemma test_tool_result_handles_dict_output:
  "sanitize_dict False
     (PDict [(PStr (pystr ''key''), PStr (pystr ''value'' @ [0xE0041] @ pystr ''hidden'')),
             (PStr (pystr ''nested''),
              PDict [(PStr (pystr ''inner''), PStr (pystr ''text'' @ [0xE0042]))])])
   = Inr (PDict [(PStr (pystr ''key''), PStr (pystr ''valuehidden'')),
                 (PStr (pystr ''nested''), PDict [(PStr (pystr ''inner''), PStr (pystr ''text''))])])"
  by (simp add: sanitize_unicode_str pystr_def ALWAYS_REMOVE_iff dict_setitem_def)

lemma test_tool_result_handles_list_output:
  "sanitize_dict False
     (PList [PDict [(PStr (pystr ''a''), PStr (pystr ''value'' @ [0xE0041]))],
             PDict [(PStr (pystr ''b''), PStr (pystr ''other''))]])
   = Inr (PList [PDict [(PStr (pystr ''a''), PStr (pystr ''value''))],
                 PDict [(PStr (pystr ''b''), PStr (pystr ''other''))]])"
  by (simp add: sanitize_unicode_str pystr_def ALWAYS_REMOVE_iff dict_setitem_def)

end
